theory Spec2Isabelle
  imports Complex_Main "HOL-Library.Multiset"
begin

section \<open>Values, errors and time\<close>

text \<open>
  The program is \<^verbatim>\<open>src/DexScreenerV4.py\<close>: a class \<^verbatim>\<open>DexAnalyzer\<close> that keeps a
  TTL cache, a rate limiter and a signal queue in three relational tables and runs each
  market event through \<^verbatim>\<open>process_pair\<close>.

  Python values that travel through the program (event fields, scores, cached records,
  signal payloads) are modelled by \<open>pyval\<close>. A dict is an association list in insertion
  order, read with \<open>map_of\<close> (the first binding of a key is the binding). A float is a
  real number (no arithmetic is done on floats here; NaN and the infinities are left out).
  \<open>PDateTime\<close> carries a \<^verbatim>\<open>datetime\<close> as microseconds, the resolution of the type.
\<close>

datatype pyval =
    PNone
  | PBool bool
  | PInt int
  | PFloat real
  | PStr string
  | PDateTime int
  | PList "pyval list"
  | PDict "(string \<times> pyval) list"

type_synonym pydict = "(string \<times> pyval) list"

type_synonym timestamp = int

text \<open>\<^verbatim>\<open>timedelta(seconds=s)\<close>, in microseconds.\<close>

definition timedelta_seconds :: "int \<Rightarrow> int" where
  "timedelta_seconds s = s * 1000000"

text \<open>Python truth value testing, as \<^verbatim>\<open>if x:\<close> applies it.\<close>

fun truthy :: "pyval \<Rightarrow> bool" where
  "truthy PNone = False"
| "truthy (PBool b) = b"
| "truthy (PInt i) = (i \<noteq> 0)"
| "truthy (PFloat r) = (r \<noteq> 0)"
| "truthy (PStr s) = (s \<noteq> [])"
| "truthy (PDateTime t) = True"
| "truthy (PList xs) = (xs \<noteq> [])"
| "truthy (PDict kvs) = (kvs \<noteq> [])"

text \<open>
  \<^verbatim>\<open>d[k] = v\<close> on a dict: an existing key keeps its place, a new key goes to the end.
  \<^verbatim>\<open>{**a, **b}\<close> is \<open>dict_merge a b\<close>: the bindings of \<open>b\<close> are stored into \<open>a\<close> one by one.
\<close>

fun dict_set :: "string \<Rightarrow> pyval \<Rightarrow> pydict \<Rightarrow> pydict" where
  "dict_set k v [] = [(k, v)]"
| "dict_set k v ((k', v') # d) =
     (if k' = k then (k, v) # d else (k', v') # dict_set k v d)"

fun dict_merge :: "pydict \<Rightarrow> pydict \<Rightarrow> pydict" where
  "dict_merge a [] = a"
| "dict_merge a ((k, v) # b) = dict_merge (dict_set k v a) b"

text \<open>
  The exceptions of the model. \<open>KeyError\<close> is a missing dict key, \<open>IntegrityError\<close> the
  store refusing a second row with an existing primary key, \<open>OperationalError\<close> the store
  being unreachable, \<open>External\<close> anything an external collaborator (feature extraction,
  scoring) raises. \<open>StatementError\<close> is a value that cannot be encoded for a JSON column
  (the \<^verbatim>\<open>TypeError\<close> of \<^verbatim>\<open>json.dumps\<close>, as the ORM reports it), \<open>ProgrammingError\<close> a
  statement the server cannot parse, \<open>PendingRollbackError\<close> a call on a session whose
  transaction has failed and was not rolled back. All of them are subclasses of
  \<^verbatim>\<open>Exception\<close>.
\<close>

datatype error =
    KeyError string
  | IntegrityError string
  | OperationalError
  | External string
  | StatementError
  | ProgrammingError
  | PendingRollbackError

text \<open>
  \<^verbatim>\<open>json.dumps\<close>, which writes a value into a \<^verbatim>\<open>Column(JSON)\<close> (the engine is created
  with no serializer of its own), accepts everything here but a \<^verbatim>\<open>datetime\<close>, at any
  depth.
\<close>

fun json_ok :: "pyval \<Rightarrow> bool" where
  "json_ok (PDateTime t) = False"
| "json_ok (PList xs) = (\<forall>x\<in>set xs. json_ok x)"
| "json_ok (PDict kvs) = (\<forall>kv\<in>set kvs. json_ok (snd kv))"
| "json_ok v = True"

text \<open>
  Whether the text of a value holds a single quote. Inside a list or a dict a string is
  shown by \<^verbatim>\<open>repr\<close>, in quotes, and so is every key of a dict; a string on its own is
  shown as it is.
\<close>

fun repr_has_quote :: "pyval \<Rightarrow> bool" where
  "repr_has_quote (PStr s) = True"
| "repr_has_quote (PList xs) = (\<exists>x\<in>set xs. repr_has_quote x)"
| "repr_has_quote (PDict kvs) = (kvs \<noteq> [])"
| "repr_has_quote v = False"

definition str_has_quote :: "pyval \<Rightarrow> bool" where
  "str_has_quote v = (case v of PStr s \<Rightarrow> CHR 0x27 \<in> set s | _ \<Rightarrow> repr_has_quote v)"

section \<open>The store\<close>

text \<open>
  The three mapped classes, one record per row. Field \<^verbatim>\<open>value\<close> is \<open>val\<close> here,
  \<^verbatim>\<open>TradingSignal.id\<close> is \<open>sig_id\<close>, and the fields of \<^verbatim>\<open>RateLimit\<close> are
  \<open>ident\<close>, \<open>rl_count\<close>, \<open>rl_expires\<close> (\<open>value\<close>, \<open>id\<close>, \<open>identifier\<close>, \<open>count\<close> are taken in
  Isabelle, and \<^verbatim>\<open>expires\<close> names a field of two classes).
\<close>

record CacheStore =
  key :: string
  val :: pyval
  expires :: timestamp

record TradingSignal =
  sig_id :: int
  channel :: string
  message :: pyval
  created_at :: timestamp

record RateLimit =
  ident :: string
  rl_count :: int
  rl_expires :: timestamp

text \<open>
  The state of a \<^verbatim>\<open>DexAnalyzer\<close>: the rows of the three tables behind \<^verbatim>\<open>db_session\<close>,
  the serial counter that assigns \<^verbatim>\<open>TradingSignal.id\<close>, the payloads sent with
  \<^verbatim>\<open>NOTIFY\<close>, the errors \<^verbatim>\<open>process_pair\<close> printed, and a counter of the calls to
  \<^verbatim>\<open>_analyze_data\<close> (not in the source; it makes "analysis ran" observable).

  A table is the list of its rows. The primary keys declared in the source are the
  invariants \<open>pk_cache\<close>, \<open>pk_rate\<close> and \<open>pk_signals\<close> below.
\<close>

record analyzer =
  cache_store :: "CacheStore list"
  trading_signals :: "TradingSignal list"
  rate_limits :: "RateLimit list"
  next_id :: int
  notifications :: "pyval list"
  printed :: "error list"
  analyze_calls :: nat

definition pk_cache :: "analyzer \<Rightarrow> bool" where
  "pk_cache st = distinct (map key (cache_store st))"

definition pk_rate :: "analyzer \<Rightarrow> bool" where
  "pk_rate st = distinct (map ident (rate_limits st))"

definition pk_signals :: "analyzer \<Rightarrow> bool" where
  "pk_signals st =
     (distinct (map sig_id (trading_signals st)) \<and>
      list_all (\<lambda>s. sig_id s < next_id st) (trading_signals st))"

text \<open>\<^verbatim>\<open>Query.first()\<close>: the first row of the result, or \<^verbatim>\<open>None\<close>.\<close>

fun first :: "'a list \<Rightarrow> 'a option" where
  "first [] = None"
| "first (x # xs) = Some x"

text \<open>
  A store call can fail for reasons outside the program (the server is away, the
  connection drops). Each operation below takes what the store raises during the call:
  \<open>None\<close> is a healthy store. A failed call changes no table, except that
  \<^verbatim>\<open>publish_signal\<close> can fail after its first commit, with the new row stored.

  The operations of this section are the calls made on a session that is usable. The
  program has one session and never rolls it back; what that does to the calls after a
  failed one is in \<open>process_pair_try\<close>, where the calls follow one another.
\<close>

subsection \<open>Cache operations\<close>

text \<open>
  \<^verbatim>\<open>cache_get\<close> (lines 95-102): the rows with this key whose \<^verbatim>\<open>expires\<close> is later than
  now; the value of the first, else \<^verbatim>\<open>None\<close>.
\<close>

definition cache_get :: "error option \<Rightarrow> analyzer \<Rightarrow> timestamp \<Rightarrow> string \<Rightarrow> error + pyval" where
  "cache_get fault st now k =
     (case fault of
        Some e \<Rightarrow> Inl e
      | None \<Rightarrow>
          (case first (filter (\<lambda>r. expires r > now)
                         (filter (\<lambda>r. key r = k) (cache_store st))) of
             Some result \<Rightarrow> Inr (val result)
           | None \<Rightarrow> Inr PNone))"

text \<open>
  \<^verbatim>\<open>Session.merge\<close> followed by \<^verbatim>\<open>commit\<close>: when a row with the primary key exists it
  takes the attributes of the given object (an UPDATE), otherwise the object is inserted.
\<close>

definition merge_row :: "CacheStore \<Rightarrow> CacheStore list \<Rightarrow> CacheStore list" where
  "merge_row e tbl =
     (if key e \<in> set (map key tbl)
      then map (\<lambda>r. if key r = key e then e else r) tbl
      else tbl @ [e])"

text \<open>
  \<^verbatim>\<open>cache_set\<close> (lines 104-113); \<^verbatim>\<open>ttl\<close> is in seconds and defaults to 3600. The
  commit encodes \<^verbatim>\<open>value\<close> for the JSON column and raises when it cannot; nothing is
  written then.
\<close>

definition cache_set ::
  "error option \<Rightarrow> analyzer \<Rightarrow> timestamp \<Rightarrow> string \<Rightarrow> pyval \<Rightarrow> int \<Rightarrow> error + analyzer" where
  "cache_set fault st now k v ttl =
     (case fault of
        Some e \<Rightarrow> Inl e
      | None \<Rightarrow>
          (let expires = now + timedelta_seconds ttl;
               cache_entry = \<lparr>key = k, val = v, expires = expires\<rparr>
           in if \<not> json_ok v then Inl StatementError
              else Inr (st\<lparr>cache_store := merge_row cache_entry (cache_store st)\<rparr>)))"

subsection \<open>Rate limiting\<close>

text \<open>
  \<^verbatim>\<open>Session.add\<close> followed by \<^verbatim>\<open>commit\<close> is an INSERT. \<^verbatim>\<open>identifier\<close> is the primary
  key of \<^verbatim>\<open>rate_limits\<close>, so the store refuses the row when one with the same
  identifier is there (\<^verbatim>\<open>cache_set\<close> uses \<^verbatim>\<open>merge\<close> instead, which updates).
\<close>

definition add_rate_limit :: "RateLimit \<Rightarrow> RateLimit list \<Rightarrow> error + RateLimit list" where
  "add_rate_limit e tbl =
     (if ident e \<in> set (map ident tbl)
      then Inl (IntegrityError ''rate_limits'')
      else Inr (tbl @ [e]))"

text \<open>
  \<^verbatim>\<open>check_rate_limit\<close> (lines 116-136). The call \<^verbatim>\<open>RateLimit(\<close> of line 125 is not
  closed in the source; it is read as closed after its last keyword argument, before
  \<^verbatim>\<open>self.db_session.add(entry)\<close>. Returning \<^verbatim>\<open>False\<close> happens before the commit and
  changes nothing. \<^verbatim>\<open>entry.count += 1\<close> writes the count read by the query, plus one.
\<close>

definition check_rate_limit ::
  "error option \<Rightarrow> analyzer \<Rightarrow> timestamp \<Rightarrow> string \<Rightarrow> int \<Rightarrow> int \<Rightarrow> error + (bool \<times> analyzer)" where
  "check_rate_limit fault st now identifier limit window =
     (case fault of
        Some e \<Rightarrow> Inl e
      | None \<Rightarrow>
          (let entry = first (filter (\<lambda>r. ident r = identifier) (rate_limits st));
               fresh = \<lparr>ident = identifier, rl_count = 1,
                        rl_expires = now + timedelta_seconds window\<rparr>;
               create = (case add_rate_limit fresh (rate_limits st) of
                           Inl e \<Rightarrow> Inl e
                         | Inr tbl \<Rightarrow> Inr (True, st\<lparr>rate_limits := tbl\<rparr>))
           in case entry of
                None \<Rightarrow> create
              | Some en \<Rightarrow>
                  if rl_expires en < now then create
                  else if rl_count en \<ge> limit then Inr (False, st)
                  else Inr (True, st\<lparr>rate_limits :=
                         map (\<lambda>r. if ident r = identifier
                                  then r\<lparr>rl_count := rl_count en + 1\<rparr> else r)
                             (rate_limits st)\<rparr>)))"

text \<open>The window the store holds for an identifier.\<close>

definition window_of :: "analyzer \<Rightarrow> string \<Rightarrow> RateLimit option" where
  "window_of st identifier = first (filter (\<lambda>r. ident r = identifier) (rate_limits st))"

subsection \<open>Trading signal queue\<close>

text \<open>
  \<^verbatim>\<open>publish_signal\<close> (lines 139-155) commits the new row, then executes \<^verbatim>\<open>NOTIFY\<close> and
  commits again. It can fail before the row is stored (\<open>AtInsert\<close>) or after
  (\<open>AtNotify\<close>: the \<^verbatim>\<open>NOTIFY\<close> or its commit fails, and the row stays). The row gets the
  next serial \<^verbatim>\<open>id\<close> and, by the column default, \<^verbatim>\<open>created_at = utcnow()\<close>.

  Two failures come from the payload itself. \<^verbatim>\<open>message\<close> is a JSON column, so the first
  commit raises for a payload that \<^verbatim>\<open>json.dumps\<close> refuses, and no row is stored. The
  statement is built as \<^verbatim>\<open>f"NOTIFY trading_signals, '{message}'"\<close>: a quote in the text
  of the payload ends the SQL literal there, which every dict with a key has, and
  \<^verbatim>\<open>execute\<close> raises with the row already committed. (A text whose quotes happen to leave
  a statement the server can parse is not told apart.)
\<close>

datatype publish_fault = AtInsert error | AtNotify error

definition publish_signal ::
  "publish_fault option \<Rightarrow> analyzer \<Rightarrow> timestamp \<Rightarrow> string \<Rightarrow> pyval \<Rightarrow> error option \<times> analyzer" where
  "publish_signal fault st now chan msg =
     (case fault of
        Some (AtInsert e) \<Rightarrow> (Some e, st)
      | _ \<Rightarrow>
          if \<not> json_ok msg then (Some StatementError, st)
          else
            (let signal = \<lparr>sig_id = next_id st, channel = chan, message = msg,
                           created_at = now\<rparr>;
                 st1 = st\<lparr>trading_signals := trading_signals st @ [signal],
                          next_id := next_id st + 1\<rparr>
             in case fault of
                  Some (AtNotify e) \<Rightarrow> (Some e, st1)
                | _ \<Rightarrow>
                    if str_has_quote msg then (Some ProgrammingError, st1)
                    else (None, st1\<lparr>notifications := notifications st1 @ [msg]\<rparr>)))"

text \<open>
  A run of publish calls on a healthy store, each with its time, channel and payload and
  each made on a usable session: the tables they leave, whether or not a call raised.
\<close>

fun publish_all :: "analyzer \<Rightarrow> (timestamp \<times> string \<times> pyval) list \<Rightarrow> analyzer" where
  "publish_all st [] = st"
| "publish_all st ((t, chan, msg) # ps) =
     publish_all (snd (publish_signal None st t chan msg)) ps"

text \<open>
  The query of \<^verbatim>\<open>consume_signals\<close> (lines 159-163): the rows of the channel, ordered by
  \<^verbatim>\<open>created_at\<close> alone, the first 100. SQL leaves the order of rows with equal
  \<^verbatim>\<open>created_at\<close> to the store: \<open>scan\<close> is the order in which the store hands the rows
  to its (stable) sort, any rearrangement of them.
\<close>

definition row_order :: "(TradingSignal list \<Rightarrow> TradingSignal list) \<Rightarrow> bool" where
  "row_order scan = (\<forall>rows. mset (scan rows) = mset rows)"

definition select_signals ::
  "(TradingSignal list \<Rightarrow> TradingSignal list) \<Rightarrow> analyzer \<Rightarrow> string \<Rightarrow> TradingSignal list" where
  "select_signals scan st chan =
     take 100 (sort_key created_at
       (scan (filter (\<lambda>s. channel s = chan) (trading_signals st))))"

text \<open>
  \<^verbatim>\<open>consume_signals\<close> (lines 157-169), for a healthy store and a consumer that iterates
  the generator to its end: the payloads in the order of the query, every yielded row
  deleted by its primary key, then the commit.
\<close>

definition consume_signals ::
  "(TradingSignal list \<Rightarrow> TradingSignal list) \<Rightarrow> analyzer \<Rightarrow> string \<Rightarrow> pyval list \<times> analyzer" where
  "consume_signals scan st chan =
     (let messages = select_signals scan st chan
      in (map message messages,
          st\<lparr>trading_signals :=
               filter (\<lambda>s. sig_id s \<notin> set (map sig_id messages)) (trading_signals st)\<rparr>))"

section \<open>The pipeline\<close>

text \<open>
  The external collaborators: feature extraction (\<^verbatim>\<open>_extract_features\<close>, called but not
  defined in the source), the two fitted models behind
  \<^verbatim>\<open>score_samples([features])[0]\<close>, and Python's \<^verbatim>\<open>str\<close> for an address that is not
  a string. Each of the first three may raise.
\<close>

record env =
  extract_features :: "pydict \<Rightarrow> error + pyval"
  pump_detect :: "pyval \<Rightarrow> error + pyval"
  rug_detect :: "pyval \<Rightarrow> error + pyval"
  py_str :: "pyval \<Rightarrow> string"

text \<open>\<^verbatim>\<open>_analyze_data\<close> (lines 195-211).\<close>

definition analyze_data :: "env \<Rightarrow> timestamp \<Rightarrow> pydict \<Rightarrow> error + pydict" where
  "analyze_data ev now data =
     (case extract_features ev data of
        Inl e \<Rightarrow> Inl e
      | Inr features \<Rightarrow>
          (case pump_detect ev features of
             Inl e \<Rightarrow> Inl e
           | Inr pump \<Rightarrow>
               (case rug_detect ev features of
                  Inl e \<Rightarrow> Inl e
                | Inr rug \<Rightarrow>
                    Inr (dict_set ''timestamp'' (PDateTime now)
                          (dict_merge data
                             [(''pump_prob'', pump), (''rug_prob'', rug)])))))"

text \<open>\<^verbatim>\<open>f"pair:{data['address']}"\<close>.\<close>

definition cache_key_of :: "env \<Rightarrow> pyval \<Rightarrow> string" where
  "cache_key_of ev a = ''pair:'' @ (case a of PStr s \<Rightarrow> s | _ \<Rightarrow> py_str ev a)"

text \<open>
  The readings of \<^verbatim>\<open>datetime.utcnow()\<close> during one \<^verbatim>\<open>process_pair\<close> (in the rate check,
  the cache lookup, the analysis, the cache store and the insert of the signal), and what
  the store raises in each of its four store calls.
\<close>

record clock =
  t_rate :: timestamp
  t_lookup :: timestamp
  t_analyze :: timestamp
  t_store :: timestamp
  t_publish :: timestamp

record faults =
  f_rate :: "error option"
  f_lookup :: "error option"
  f_store :: "error option"
  f_publish :: "publish_fault option"

text \<open>
  The program holds one session (\<^verbatim>\<open>self.db_session\<close>, line 57) for all its store calls
  and never calls \<^verbatim>\<open>rollback\<close>. When a store call raises, the transaction of the session
  has failed, and from then on every store call on that session raises. \<open>needs_rollback\<close>
  records that; \<open>db\<close> is what the tables hold.
\<close>

record session =
  db :: analyzer
  needs_rollback :: bool

text \<open>
  The \<^verbatim>\<open>try\<close> block of \<^verbatim>\<open>process_pair\<close> (lines 175-190): the value returned or the
  exception raised, and the session left behind. The first store call is the query of
  \<^verbatim>\<open>check_rate_limit\<close>, which raises at once on a failed session. An exception of a store
  call leaves the session failed; a \<^verbatim>\<open>KeyError\<close> and the exceptions of the analysis do
  not touch it.
\<close>

definition process_pair_try ::
  "env \<Rightarrow> faults \<Rightarrow> clock \<Rightarrow> session \<Rightarrow> pydict \<Rightarrow> (error + pyval) \<times> session" where
  "process_pair_try ev fl ck s data =
     (if needs_rollback s then (Inl PendingRollbackError, s)
      else
       (case check_rate_limit (f_rate fl) (db s) (t_rate ck) ''api_requests'' 10 1 of
          Inl e \<Rightarrow> (Inl e, s\<lparr>needs_rollback := True\<rparr>)
        | Inr (allowed, st1) \<Rightarrow>
            if \<not> allowed then (Inr PNone, s\<lparr>db := st1\<rparr>)
            else
              (case map_of data ''address'' of
                 None \<Rightarrow> (Inl (KeyError ''address''), s\<lparr>db := st1\<rparr>)
               | Some a \<Rightarrow>
                   (let cache_key = cache_key_of ev a
                    in case cache_get (f_lookup fl) st1 (t_lookup ck) cache_key of
                         Inl e \<Rightarrow> (Inl e, \<lparr>db = st1, needs_rollback = True\<rparr>)
                       | Inr cached \<Rightarrow>
                           if truthy cached then (Inr cached, s\<lparr>db := st1\<rparr>)
                           else
                             (let st2 = st1\<lparr>analyze_calls := analyze_calls st1 + 1\<rparr>
                              in case analyze_data ev (t_analyze ck) data of
                                   Inl e \<Rightarrow> (Inl e, s\<lparr>db := st2\<rparr>)
                                 | Inr analysis \<Rightarrow>
                                     (case cache_set (f_store fl) st2 (t_store ck)
                                             cache_key (PDict analysis) 3600 of
                                        Inl e \<Rightarrow> (Inl e, \<lparr>db = st2, needs_rollback = True\<rparr>)
                                      | Inr st3 \<Rightarrow>
                                          (case map_of analysis ''signal'' of
                                             None \<Rightarrow>
                                               (Inl (KeyError ''signal''), s\<lparr>db := st3\<rparr>)
                                           | Some flag \<Rightarrow>
                                               if truthy flag then
                                                 (case publish_signal (f_publish fl) st3
                                                         (t_publish ck) ''trading''
                                                         (PDict analysis) of
                                                    (Some e, st4) \<Rightarrow>
                                                      (Inl e, \<lparr>db = st4, needs_rollback = True\<rparr>)
                                                  | (None, st4) \<Rightarrow>
                                                      (Inr PNone, s\<lparr>db := st4\<rparr>))
                                               else (Inr PNone, s\<lparr>db := st3\<rparr>))))))))"

text \<open>
  \<^verbatim>\<open>process_pair\<close> (lines 172-193): \<^verbatim>\<open>except Exception\<close> prints the error and the
  function returns \<^verbatim>\<open>None\<close>. There is no \<^verbatim>\<open>rollback\<close> in the handler.
\<close>

definition process_pair ::
  "env \<Rightarrow> faults \<Rightarrow> clock \<Rightarrow> session \<Rightarrow> pydict \<Rightarrow> pyval \<times> session" where
  "process_pair ev fl ck s data =
     (case process_pair_try ev fl ck s data of
        (Inl e, s') \<Rightarrow> (PNone, s'\<lparr>db := (db s')\<lparr>printed := printed (db s') @ [e]\<rparr>\<rparr>)
      | (Inr v, s') \<Rightarrow> (v, s'))"

section \<open>Runs and example states\<close>


text \<open>Any later use of the queue: publishes and consumes in any order.\<close>

datatype bus_op =
    Publish timestamp string pyval
  | Consume "TradingSignal list \<Rightarrow> TradingSignal list" string

fun bus_run :: "analyzer \<Rightarrow> bus_op list \<Rightarrow> analyzer" where
  "bus_run st [] = st"
| "bus_run st (Publish t chan msg # ops) =
     bus_run (snd (publish_signal None st t chan msg)) ops"
| "bus_run st (Consume scan chan # ops) =
     bus_run (snd (consume_signals scan st chan)) ops"

text \<open>An analyzer on empty tables, and a healthy store and a clock for one event.\<close>

definition empty_store :: analyzer where
  "empty_store =
     \<lparr>cache_store = [], trading_signals = [], rate_limits = [], next_id = 1,
      notifications = [], printed = [], analyze_calls = 0\<rparr>"

definition healthy :: faults where
  "healthy = \<lparr>f_rate = None, f_lookup = None, f_store = None, f_publish = None\<rparr>"

definition at_time :: "timestamp \<Rightarrow> clock" where
  "at_time t = \<lparr>t_rate = t, t_lookup = t, t_analyze = t, t_store = t, t_publish = t\<rparr>"

text \<open>
  The scenario of the specification: \<^verbatim>\<open>set("pair:0xabc", {"price": 1}, ttl=5)\<close> at
  time 0.
\<close>

definition price_cached :: analyzer where
  "price_cached =
     empty_store\<lparr>cache_store :=
       [\<lparr>key = ''pair:0xabc'', val = PDict [(''price'', PInt 1)],
         expires = timedelta_seconds 5\<rparr>]\<rparr>"

text \<open>A window for \<^verbatim>\<open>api\<close> that has reached a limit of 10 and expires at time 10.\<close>

definition window_full :: analyzer where
  "window_full =
     empty_store\<lparr>rate_limits := [\<lparr>ident = ''api'', rl_count = 10, rl_expires = 10\<rparr>]\<rparr>"

text \<open>Two signals published to \<^verbatim>\<open>trading\<close> at times 1 and 2, on empty tables.\<close>

definition two_published :: analyzer where
  "two_published =
     publish_all empty_store
       [(1, ''trading'', PStr ''first''), (2, ''trading'', PStr ''second'')]"

text \<open>
  No row of the queue carries an id of \<open>B\<close>, and the serial counter is past all of \<open>B\<close>:
  what holds of the ids of a consumed batch from then on.
\<close>

definition keeps_out :: "int set \<Rightarrow> analyzer \<Rightarrow> bool" where
  "keeps_out B st =
     ((\<forall>s\<in>set (trading_signals st). sig_id s \<notin> B) \<and> (\<forall>b\<in>B. b < next_id st))"

text \<open>
  Collaborators for the examples: an extractor and two models that always answer, and
  the same with an extractor that raises, and an event that asks for a signal.
\<close>

definition flat_env :: env where
  "flat_env =
     \<lparr>extract_features = (\<lambda>d. Inr (PList [])),
      pump_detect = (\<lambda>f. Inr (PFloat 0)),
      rug_detect = (\<lambda>f. Inr (PFloat 0)),
      py_str = (\<lambda>v. [])\<rparr>"

definition broken_env :: env where
  "broken_env = flat_env\<lparr>extract_features := (\<lambda>d. Inl (External ''features''))\<rparr>"

definition abc_event :: pydict where
  "abc_event = [(''address'', PStr ''0xabc''), (''signal'', PBool True)]"

text \<open>
  An event for another pair; a usable session on empty tables, one on the cache of the
  price scenario, and one whose window for \<^verbatim>\<open>api_requests\<close> has reached the limit.
\<close>

definition def_event :: pydict where
  "def_event = [(''address'', PStr ''0xdef''), (''signal'', PBool True)]"

definition fresh_session :: session where
  "fresh_session = \<lparr>db = empty_store, needs_rollback = False\<rparr>"

definition price_session :: session where
  "price_session = \<lparr>db = price_cached, needs_rollback = False\<rparr>"

definition requests_full :: session where
  "requests_full =
     \<lparr>db = empty_store\<lparr>rate_limits :=
             [\<lparr>ident = ''api_requests'', rl_count = 10,
               rl_expires = timedelta_seconds 1\<rparr>]\<rparr>,
      needs_rollback = False\<rparr>"

text \<open>
  Calls of \<^verbatim>\<open>check_rate_limit\<close> made one after another, each at its own time, on a healthy
  store: the answers in order, up to the first exception.
\<close>

fun allow_seq :: "analyzer \<Rightarrow> timestamp list \<Rightarrow> string \<Rightarrow> int \<Rightarrow> int \<Rightarrow> (error + bool) list" where
  "allow_seq st [] i l w = []"
| "allow_seq st (t # ts) i l w =
     (case check_rate_limit None st t i l w of
        Inl e \<Rightarrow> [Inl e]
      | Inr (b, st') \<Rightarrow> Inr b # allow_seq st' ts i l w)"

section \<open>The cache\<close>

lemma filter_key_unique:
  "distinct (map key tbl) \<Longrightarrow> r \<in> set tbl \<Longrightarrow> filter (\<lambda>x. key x = key r) tbl = [r]"
proof (induction tbl)
  case Nil
  then show ?case by simp
next
  case (Cons a tbl)
  show ?case
  proof (cases "a = r")
    case True
    from Cons.prems(1) True have "key r \<notin> key ` set tbl" by simp
    then have "\<forall>x\<in>set tbl. key x \<noteq> key r"
      by (metis imageI)
    then have "filter (\<lambda>x. key x = key r) tbl = []"
      by (simp add: filter_empty_conv)
    with True show ?thesis by simp
  next
    case False
    with Cons.prems have r: "r \<in> set tbl" by simp
    with Cons.prems(1) have "key a \<noteq> key r" by auto
    with Cons.IH Cons.prems(1) r show ?thesis by simp
  qed
qed

lemma replace_keys:
  "map key (map (\<lambda>r. if key r = key e then e else r) tbl) = map key tbl"
  by (induction tbl) auto

lemma merge_row_distinct:
  assumes "distinct (map key tbl)"
  shows "distinct (map key (merge_row e tbl))"
proof (cases "key e \<in> set (map key tbl)")
  case True
  then have "map key (merge_row e tbl) = map key tbl"
    unfolding merge_row_def using replace_keys [of e tbl] by simp
  with assms show ?thesis by simp
next
  case False
  with assms show ?thesis by (simp add: merge_row_def)
qed

lemma merge_row_mem: "e \<in> set (merge_row e tbl)"
  by (auto simp: merge_row_def)

lemma merge_row_filter:
  "distinct (map key tbl) \<Longrightarrow> filter (\<lambda>x. key x = key e) (merge_row e tbl) = [e]"
  using filter_key_unique [OF merge_row_distinct merge_row_mem] by blast

lemma replace_other:
  "k \<noteq> key e \<Longrightarrow>
   filter (\<lambda>x. key x = k) (map (\<lambda>r. if key r = key e then e else r) tbl) =
   filter (\<lambda>x. key x = k) tbl"
  by (induction tbl) auto

lemma merge_row_other:
  "k \<noteq> key e \<Longrightarrow> filter (\<lambda>x. key x = k) (merge_row e tbl) = filter (\<lambda>x. key x = k) tbl"
  by (simp add: merge_row_def replace_other)

text \<open>
  C2. On a healthy store whose keys are unique (the primary key of \<^verbatim>\<open>cache_store\<close>),
  \<^verbatim>\<open>cache_get\<close> returns the value of the row with this key when now is before the row's
  expiry, and \<^verbatim>\<open>None\<close> when every row with this key has expired or there is none:
  an expired row that is still in the table is not returned.
\<close>

theorem cache_get_live_iff:
  assumes "pk_cache st"
  shows "(\<forall>r\<in>set (cache_store st). key r = k \<and> now < expires r \<longrightarrow>
            cache_get None st now k = Inr (val r)) \<and>
         ((\<forall>r\<in>set (cache_store st). key r = k \<longrightarrow> expires r \<le> now) \<longrightarrow>
            cache_get None st now k = Inr PNone)"
proof (intro conjI ballI impI)
  fix r assume r: "r \<in> set (cache_store st)" and kr: "key r = k \<and> now < expires r"
  from assms r have "filter (\<lambda>x. key x = key r) (cache_store st) = [r]"
    unfolding pk_cache_def by (rule filter_key_unique)
  with kr show "cache_get None st now k = Inr (val r)"
    by (auto simp: cache_get_def)
next
  assume dead: "\<forall>r\<in>set (cache_store st). key r = k \<longrightarrow> expires r \<le> now"
  then have "filter (\<lambda>r. expires r > now) (filter (\<lambda>r. key r = k) (cache_store st)) = []"
    by (auto simp: filter_empty_conv)
  then show "cache_get None st now k = Inr PNone"
    by (simp add: cache_get_def)
qed

theorem cache_get_live_iff_witness:
  "pk_cache price_cached \<and>
   cache_get None price_cached 0 ''pair:0xabc'' = Inr (PDict [(''price'', PInt 1)]) \<and>
   cache_get None price_cached (timedelta_seconds 6) ''pair:0xabc'' = Inr PNone"
proof -
  have pk: "pk_cache price_cached"
    by (simp add: pk_cache_def price_cached_def)
  show ?thesis
    using pk cache_get_live_iff [OF pk, of "''pair:0xabc''" 0]
      cache_get_live_iff [OF pk, of "''pair:0xabc''" "timedelta_seconds 6"]
    by (simp add: price_cached_def timedelta_seconds_def)
qed

text \<open>
  C8. Two healthy \<^verbatim>\<open>cache_set\<close> calls on one key, on a table with unique keys, leave
  exactly one row with that key, and it holds the value and the expiry of the later call;
  the keys of the table stay unique.
\<close>

theorem cache_set_twice:
  assumes "pk_cache st"
    and "cache_set None st t1 k v1 ttl1 = Inr st1"
    and "cache_set None st1 t2 k v2 ttl2 = Inr st2"
  shows "filter (\<lambda>r. key r = k) (cache_store st2) =
           [\<lparr>key = k, val = v2, expires = t2 + timedelta_seconds ttl2\<rparr>] \<and> pk_cache st2"
proof -
  let ?e1 = "\<lparr>key = k, val = v1, expires = t1 + timedelta_seconds ttl1\<rparr>"
  let ?e2 = "\<lparr>key = k, val = v2, expires = t2 + timedelta_seconds ttl2\<rparr>"
  from assms(2) have s1: "cache_store st1 = merge_row ?e1 (cache_store st)"
    by (auto simp: cache_set_def Let_def split: if_splits)
  from assms(3) have s2: "cache_store st2 = merge_row ?e2 (cache_store st1)"
    by (auto simp: cache_set_def Let_def split: if_splits)
  from assms(1) have d1: "distinct (map key (cache_store st1))"
    unfolding pk_cache_def s1 by (rule merge_row_distinct)
  then have d2: "distinct (map key (cache_store st2))"
    unfolding s2 by (rule merge_row_distinct)
  from merge_row_filter [OF d1, of ?e2] have "filter (\<lambda>r. key r = k) (cache_store st2) = [?e2]"
    by (simp add: s2)
  with d2 show ?thesis by (simp add: pk_cache_def)
qed

theorem cache_set_twice_witness:
  "pk_cache price_cached \<and>
   cache_set None price_cached 7 ''pair:0xabc'' (PInt 2) 5 =
     Inr (price_cached\<lparr>cache_store :=
            [\<lparr>key = ''pair:0xabc'', val = PInt 2, expires = 7 + timedelta_seconds 5\<rparr>]\<rparr>) \<and>
   cache_set None
     (price_cached\<lparr>cache_store :=
        [\<lparr>key = ''pair:0xabc'', val = PInt 2, expires = 7 + timedelta_seconds 5\<rparr>]\<rparr>)
     9 ''pair:0xabc'' (PInt 3) 60 =
     Inr (price_cached\<lparr>cache_store :=
            [\<lparr>key = ''pair:0xabc'', val = PInt 3, expires = 9 + timedelta_seconds 60\<rparr>]\<rparr>) \<and>
   filter (\<lambda>r. key r = ''pair:0xabc'')
     (cache_store (price_cached\<lparr>cache_store :=
        [\<lparr>key = ''pair:0xabc'', val = PInt 3, expires = 9 + timedelta_seconds 60\<rparr>]\<rparr>)) =
     [\<lparr>key = ''pair:0xabc'', val = PInt 3, expires = 9 + timedelta_seconds 60\<rparr>]"
proof -
  have pk: "pk_cache price_cached"
    by (simp add: pk_cache_def price_cached_def)
  have s1: "cache_set None price_cached 7 ''pair:0xabc'' (PInt 2) 5 =
     Inr (price_cached\<lparr>cache_store :=
            [\<lparr>key = ''pair:0xabc'', val = PInt 2, expires = 7 + timedelta_seconds 5\<rparr>]\<rparr>)"
    by (simp add: cache_set_def merge_row_def price_cached_def)
  have s2: "cache_set None
     (price_cached\<lparr>cache_store :=
        [\<lparr>key = ''pair:0xabc'', val = PInt 2, expires = 7 + timedelta_seconds 5\<rparr>]\<rparr>)
     9 ''pair:0xabc'' (PInt 3) 60 =
     Inr (price_cached\<lparr>cache_store :=
            [\<lparr>key = ''pair:0xabc'', val = PInt 3, expires = 9 + timedelta_seconds 60\<rparr>]\<rparr>)"
    by (simp add: cache_set_def merge_row_def price_cached_def)
  from cache_set_twice [OF pk s1 s2] pk s1 s2 show ?thesis by simp
qed

section \<open>The rate limiter\<close>

lemma first_filter_None: "first (filter P tbl) = None \<longleftrightarrow> (\<forall>x\<in>set tbl. \<not> P x)"
  by (induction tbl) auto

lemma first_filter_bump:
  "first (filter (\<lambda>r. ident r = i) tbl) = Some en \<Longrightarrow>
   first (filter (\<lambda>r. ident r = i)
            (map (\<lambda>r. if ident r = i then r\<lparr>rl_count := c\<rparr> else r) tbl)) =
   Some (en\<lparr>rl_count := c\<rparr>)"
  by (induction tbl) (auto split: if_splits)

lemma first_filter_bump_other:
  "j \<noteq> i \<Longrightarrow>
   first (filter (\<lambda>r. ident r = j)
            (map (\<lambda>r. if ident r = i then r\<lparr>rl_count := c\<rparr> else r) tbl)) =
   first (filter (\<lambda>r. ident r = j) tbl)"
  by (induction tbl) (auto split: if_splits)

text \<open>
  C1, as the code has it. On a healthy store: with no window for the identifier the call
  creates the window \<open>{count = 1, expires = now + window}\<close> and returns \<^verbatim>\<open>True\<close>; with a
  window that has not expired, which the code takes to mean \<open>now \<le> expires\<close>, the call
  returns \<^verbatim>\<open>False\<close> and changes nothing when \<open>count \<ge> limit\<close>, and otherwise adds
  exactly one to the count and returns \<^verbatim>\<open>True\<close>. The windows of other identifiers stay
  as they are.
\<close>

theorem check_rate_limit_cases:
  "(window_of st i = None \<longrightarrow>
      (\<exists>st'. check_rate_limit None st now i limit w = Inr (True, st') \<and>
             window_of st' i =
               Some \<lparr>ident = i, rl_count = 1, rl_expires = now + timedelta_seconds w\<rparr> \<and>
             (\<forall>j. j \<noteq> i \<longrightarrow> window_of st' j = window_of st j))) \<and>
   (\<forall>r. window_of st i = Some r \<and> now \<le> rl_expires r \<and> limit \<le> rl_count r \<longrightarrow>
      check_rate_limit None st now i limit w = Inr (False, st)) \<and>
   (\<forall>r. window_of st i = Some r \<and> now \<le> rl_expires r \<and> rl_count r < limit \<longrightarrow>
      (\<exists>st'. check_rate_limit None st now i limit w = Inr (True, st') \<and>
             window_of st' i = Some (r\<lparr>rl_count := rl_count r + 1\<rparr>) \<and>
             (\<forall>j. j \<noteq> i \<longrightarrow> window_of st' j = window_of st j)))"
proof (intro conjI allI impI)
  assume none: "window_of st i = None"
  then have notin: "i \<notin> set (map ident (rate_limits st))"
    by (auto simp: window_of_def first_filter_None)
  let ?fresh = "\<lparr>ident = i, rl_count = 1, rl_expires = now + timedelta_seconds w\<rparr>"
  let ?st' = "st\<lparr>rate_limits := rate_limits st @ [?fresh]\<rparr>"
  from none notin have "check_rate_limit None st now i limit w = Inr (True, ?st')"
    by (simp add: check_rate_limit_def window_of_def add_rate_limit_def)
  moreover from none have "filter (\<lambda>r. ident r = i) (rate_limits st) = []"
    by (simp add: window_of_def first_filter_None filter_empty_conv)
  then have "window_of ?st' i = Some ?fresh"
    by (simp add: window_of_def)
  moreover have "\<forall>j. j \<noteq> i \<longrightarrow> window_of ?st' j = window_of st j"
    by (simp add: window_of_def)
  ultimately show "\<exists>st'. check_rate_limit None st now i limit w = Inr (True, st') \<and>
             window_of st' i = Some ?fresh \<and>
             (\<forall>j. j \<noteq> i \<longrightarrow> window_of st' j = window_of st j)"
    by blast
next
  fix r assume "window_of st i = Some r \<and> now \<le> rl_expires r \<and> limit \<le> rl_count r"
  then show "check_rate_limit None st now i limit w = Inr (False, st)"
    by (simp add: check_rate_limit_def window_of_def)
next
  fix r assume a: "window_of st i = Some r \<and> now \<le> rl_expires r \<and> rl_count r < limit"
  let ?st' = "st\<lparr>rate_limits :=
                 map (\<lambda>x. if ident x = i then x\<lparr>rl_count := rl_count r + 1\<rparr> else x)
                   (rate_limits st)\<rparr>"
  from a have "check_rate_limit None st now i limit w = Inr (True, ?st')"
    by (simp add: check_rate_limit_def window_of_def)
  moreover from a have "window_of ?st' i = Some (r\<lparr>rl_count := rl_count r + 1\<rparr>)"
    by (simp add: window_of_def first_filter_bump)
  moreover have "\<forall>j. j \<noteq> i \<longrightarrow> window_of ?st' j = window_of st j"
    by (simp add: window_of_def first_filter_bump_other)
  ultimately show "\<exists>st'. check_rate_limit None st now i limit w = Inr (True, st') \<and>
             window_of st' i = Some (r\<lparr>rl_count := rl_count r + 1\<rparr>) \<and>
             (\<forall>j. j \<noteq> i \<longrightarrow> window_of st' j = window_of st j)"
    by blast
qed

text \<open>
  C1 as stated fails at \<open>now = expires\<close>: the claim has the window replaced and the call
  return \<^verbatim>\<open>True\<close>; the code tests \<^verbatim>\<open>entry.expires < now\<close>, keeps the window and, the
  limit being reached, returns \<^verbatim>\<open>False\<close>.
\<close>

theorem check_rate_limit_boundary_counterexample:
  "window_of window_full ''api'' = Some \<lparr>ident = ''api'', rl_count = 10, rl_expires = 10\<rparr> \<and>
   (10::int) \<ge> rl_expires \<lparr>ident = ''api'', rl_count = 10, rl_expires = 10\<rparr> \<and>
   check_rate_limit None window_full 10 ''api'' 10 1 = Inr (False, window_full)"
  by (simp add: window_full_def empty_store_def window_of_def check_rate_limit_def)

text \<open>
  Past the expiry the code adds a second row with the identifier of the row it found, and
  the commit fails on the primary key.
\<close>

lemma check_rate_limit_expired_row:
  "check_rate_limit None window_full 11 ''api'' 10 1 = Inl (IntegrityError ''rate_limits'')"
  by (simp add: window_full_def empty_store_def check_rate_limit_def add_rate_limit_def)

theorem check_rate_limit_cases_witness:
  "window_of empty_store ''api'' = None \<and>
   (\<exists>st'. check_rate_limit None empty_store 0 ''api'' 10 1 = Inr (True, st') \<and>
          window_of st' ''api'' =
            Some \<lparr>ident = ''api'', rl_count = 1, rl_expires = timedelta_seconds 1\<rparr>) \<and>
   window_of window_full ''api'' = Some \<lparr>ident = ''api'', rl_count = 10, rl_expires = 10\<rparr> \<and>
   check_rate_limit None window_full 9 ''api'' 10 1 = Inr (False, window_full) \<and>
   (\<exists>st'. check_rate_limit None window_full 9 ''api'' 11 1 = Inr (True, st') \<and>
          window_of st' ''api'' = Some \<lparr>ident = ''api'', rl_count = 11, rl_expires = 10\<rparr>)"
proof -
  have n: "window_of empty_store ''api'' = None"
    by (simp add: window_of_def empty_store_def)
  have w: "window_of window_full ''api'' =
             Some \<lparr>ident = ''api'', rl_count = 10, rl_expires = 10\<rparr>"
    by (simp add: window_of_def window_full_def empty_store_def)
  from n w check_rate_limit_cases [of empty_store "''api''" 0 10 1]
    check_rate_limit_cases [of window_full "''api''" 9 10 1]
    check_rate_limit_cases [of window_full "''api''" 9 11 1]
  show ?thesis
    by (auto simp: empty_store_def)
qed

section \<open>The signal queue\<close>


lemma row_order_set: "row_order scan \<Longrightarrow> set (scan rows) = set rows"
  unfolding row_order_def by (metis set_mset_mset)

lemma select_signals_subset:
  assumes "row_order scan"
  shows "set (select_signals scan st chan) \<subseteq> set (trading_signals st)"
proof -
  have "set (select_signals scan st chan) \<subseteq>
          set (sort_key created_at (scan (filter (\<lambda>s. channel s = chan) (trading_signals st))))"
    unfolding select_signals_def by (rule set_take_subset)
  also have "\<dots> = set (filter (\<lambda>s. channel s = chan) (trading_signals st))"
    by (simp add: row_order_set [OF assms])
  finally show ?thesis by auto
qed







lemma row_order_rev: "row_order rev"
  by (simp add: row_order_def)



lemma keeps_out_publish:
  "keeps_out B st \<Longrightarrow> keeps_out B (snd (publish_signal None st t chan msg))"
  by (auto simp: keeps_out_def publish_signal_def str_has_quote_def Let_def)

lemma keeps_out_consume:
  "keeps_out B st \<Longrightarrow> keeps_out B (snd (consume_signals scan st chan))"
  by (auto simp: keeps_out_def consume_signals_def Let_def)

lemma keeps_out_run: "keeps_out B st \<Longrightarrow> keeps_out B (bus_run st ops)"
  by (induction st ops rule: bus_run.induct)
     (simp_all add: keeps_out_publish keeps_out_consume)

text \<open>
  C4, as the code has it. The batch bound is the constant 100 of the query, not an
  argument. On a queue with unique, serially assigned ids a \<^verbatim>\<open>consume_signals\<close> call
  (iterated to its end) yields at most 100 messages; every row it yields is gone from the
  table afterwards; and after any further publishes and consumes no consume on the
  channel yields a row with one of those ids again.
\<close>

theorem consume_signals_batch:
  assumes pk: "pk_signals st" and sc: "row_order scan" and sc': "row_order scan'"
  shows "length (fst (consume_signals scan st chan)) \<le> 100 \<and>
         (\<forall>s\<in>set (select_signals scan st chan).
            sig_id s \<notin> sig_id ` set (trading_signals (snd (consume_signals scan st chan)))) \<and>
         (\<forall>s\<in>set (select_signals scan st chan).
            sig_id s \<notin> sig_id ` set (select_signals scan'
                         (bus_run (snd (consume_signals scan st chan)) ops) chan))"
proof -
  let ?batch = "select_signals scan st chan"
  let ?B = "sig_id ` set ?batch"
  let ?st1 = "snd (consume_signals scan st chan)"
  have len: "length (fst (consume_signals scan st chan)) \<le> 100"
    by (simp add: consume_signals_def select_signals_def Let_def)
  have sub: "set ?batch \<subseteq> set (trading_signals st)"
    using sc by (rule select_signals_subset)
  have gone: "\<forall>s\<in>set (trading_signals ?st1). sig_id s \<notin> ?B"
    by (simp add: consume_signals_def Let_def)
  have below: "\<forall>b\<in>?B. b < next_id ?st1"
    using pk sub by (auto simp: pk_signals_def list_all_iff consume_signals_def Let_def)
  from gone below have "keeps_out ?B ?st1" by (simp add: keeps_out_def)
  then have k: "keeps_out ?B (bus_run ?st1 ops)" by (rule keeps_out_run)
  have "set (select_signals scan' (bus_run ?st1 ops) chan) \<subseteq>
          set (trading_signals (bus_run ?st1 ops))"
    using sc' by (rule select_signals_subset)
  with k have later: "\<forall>s\<in>set (select_signals scan' (bus_run ?st1 ops) chan). sig_id s \<notin> ?B"
    by (auto simp: keeps_out_def)
  from gone have g: "\<forall>s\<in>set ?batch. sig_id s \<notin> sig_id ` set (trading_signals ?st1)"
    by (metis imageE imageI)
  from later have l: "\<forall>s\<in>set ?batch.
      sig_id s \<notin> sig_id ` set (select_signals scan' (bus_run ?st1 ops) chan)"
    by (metis imageE imageI)
  from len g l show ?thesis by (intro conjI)
qed

theorem consume_signals_batch_witness:
  "pk_signals two_published \<and> row_order rev \<and>
   length (fst (consume_signals rev two_published ''trading'')) = 2 \<and>
   map sig_id (select_signals rev two_published ''trading'') = [1, 2] \<and>
   map sig_id (select_signals rev
     (bus_run (snd (consume_signals rev two_published ''trading''))
        [Publish 3 ''trading'' (PStr ''third'')]) ''trading'') = [3]"
proof -
  have pk: "pk_signals two_published"
    by (simp add: pk_signals_def two_published_def publish_signal_def str_has_quote_def Let_def empty_store_def)
  from consume_signals_batch [OF pk row_order_rev row_order_rev, of "''trading''"
      "[Publish 3 ''trading'' (PStr ''third'')]"] pk row_order_rev
  show ?thesis
    by (simp add: two_published_def consume_signals_def select_signals_def
        publish_signal_def str_has_quote_def Let_def empty_store_def)
qed

text \<open>
  C4 as stated fails for a bound below the number of waiting messages: asked for at most
  one message, the call has no way to take the bound and yields both.
\<close>

theorem consume_signals_bound_counterexample:
  "\<not> length (fst (consume_signals (\<lambda>rows. rows)
        (publish_all empty_store
           [(1, ''trading'', PStr ''first''), (2, ''trading'', PStr ''second'')])
        ''trading'')) \<le> 1"
  by (simp add: consume_signals_def select_signals_def publish_signal_def str_has_quote_def Let_def empty_store_def)

section \<open>Processing an event\<close>

lemma map_of_dict_set: "map_of (dict_set k v d) = (map_of d)(k \<mapsto> v)"
  by (induction d) (auto simp: fun_eq_iff)

lemma analyze_data_fields:
  assumes "analyze_data ev now data = Inr analysis"
  shows "\<exists>features pump rug.
           extract_features ev data = Inr features \<and>
           pump_detect ev features = Inr pump \<and> rug_detect ev features = Inr rug \<and>
           map_of analysis =
             (map_of data)(''pump_prob'' \<mapsto> pump, ''rug_prob'' \<mapsto> rug,
                           ''timestamp'' \<mapsto> PDateTime now)"
  using assms
  by (auto simp: analyze_data_def map_of_dict_set split: sum.splits)

lemma analyze_data_signal:
  "analyze_data ev now data = Inr analysis \<Longrightarrow> map_of analysis ''signal'' = map_of data ''signal''"
  by (drule analyze_data_fields) auto

lemma analyze_data_not_json:
  assumes "analyze_data ev now data = Inr analysis"
  shows "\<not> json_ok (PDict analysis)"
proof -
  from analyze_data_fields [OF assms]
  have "map_of analysis ''timestamp'' = Some (PDateTime now)" by auto
  then have "(''timestamp'', PDateTime now) \<in> set analysis" by (rule map_of_SomeD)
  then show ?thesis by force
qed

lemma cache_set_refuses_record:
  assumes "analyze_data ev now data = Inr analysis"
  shows "cache_set f st t k (PDict analysis) ttl =
           Inl (case f of Some e \<Rightarrow> e | None \<Rightarrow> StatementError)"
  using analyze_data_not_json [OF assms]
  by (simp add: cache_set_def Let_def split: option.splits)

lemma check_rate_limit_frame:
  assumes "check_rate_limit f st now i l w = Inr (b, st1)"
  shows "cache_store st1 = cache_store st \<and> trading_signals st1 = trading_signals st \<and>
         next_id st1 = next_id st \<and> notifications st1 = notifications st \<and>
         printed st1 = printed st \<and> analyze_calls st1 = analyze_calls st"
  using assms
  by (auto simp: check_rate_limit_def add_rate_limit_def Let_def
           split: option.splits if_splits sum.splits)

text \<open>
  The \<^verbatim>\<open>try\<close> block with the cache store resolved: every record of \<^verbatim>\<open>_analyze_data\<close>
  holds the \<^verbatim>\<open>datetime\<close> of its \<^verbatim>\<open>timestamp\<close>, so \<^verbatim>\<open>cache_set\<close> raises for it, the
  lines after it are never reached, and the session is left failed.
\<close>

lemma process_pair_try_unfolded:
  "process_pair_try ev fl ck s data =
     (if needs_rollback s then (Inl PendingRollbackError, s)
      else
       (case check_rate_limit (f_rate fl) (db s) (t_rate ck) ''api_requests'' 10 1 of
          Inl e \<Rightarrow> (Inl e, s\<lparr>needs_rollback := True\<rparr>)
        | Inr (allowed, st1) \<Rightarrow>
            if \<not> allowed then (Inr PNone, s\<lparr>db := st1\<rparr>)
            else
              (case map_of data ''address'' of
                 None \<Rightarrow> (Inl (KeyError ''address''), s\<lparr>db := st1\<rparr>)
               | Some a \<Rightarrow>
                   (case cache_get (f_lookup fl) st1 (t_lookup ck) (cache_key_of ev a) of
                      Inl e \<Rightarrow> (Inl e, \<lparr>db = st1, needs_rollback = True\<rparr>)
                    | Inr cached \<Rightarrow>
                        if truthy cached then (Inr cached, s\<lparr>db := st1\<rparr>)
                        else
                          (case analyze_data ev (t_analyze ck) data of
                             Inl e \<Rightarrow>
                               (Inl e, s\<lparr>db := st1\<lparr>analyze_calls := analyze_calls st1 + 1\<rparr>\<rparr>)
                           | Inr analysis \<Rightarrow>
                               (Inl (case f_store fl of Some e \<Rightarrow> e | None \<Rightarrow> StatementError),
                                \<lparr>db = st1\<lparr>analyze_calls := analyze_calls st1 + 1\<rparr>,
                                 needs_rollback = True\<rparr>))))))"
  by (auto simp: process_pair_try_def Let_def cache_set_refuses_record
           split: sum.splits option.splits prod.splits)

lemma process_pair_stores_nothing:
  "cache_store (db (snd (process_pair ev fl ck s data))) = cache_store (db s) \<and>
   trading_signals (db (snd (process_pair ev fl ck s data))) = trading_signals (db s) \<and>
   notifications (db (snd (process_pair ev fl ck s data))) = notifications (db s)"
  by (auto simp: process_pair_def process_pair_try_unfolded
           split: sum.splits option.splits prod.splits dest: check_rate_limit_frame)

lemma process_pair_on_failed_session:
  "needs_rollback s \<Longrightarrow>
   process_pair ev fl ck s data =
     (PNone, s\<lparr>db := (db s)\<lparr>printed := printed (db s) @ [PendingRollbackError]\<rparr>\<rparr>)"
  by (simp add: process_pair_def process_pair_try_def)


lemmas run_defs =
  process_pair_def process_pair_try_def check_rate_limit_def add_rate_limit_def
  cache_get_def cache_set_def merge_row_def analyze_data_def publish_signal_def
  cache_key_of_def healthy_def at_time_def empty_store_def flat_env_def broken_env_def
  abc_event_def def_event_def fresh_session_def price_session_def price_cached_def
  requests_full_def timedelta_seconds_def str_has_quote_def Let_def


text \<open>
  C5 fails on the code. The claim has the second of two events with the same address
  return the first event's cached analysis record. In the code the first event is
  analysed and \<^verbatim>\<open>cache_set\<close> raises on the \<^verbatim>\<open>datetime\<close> in the record: nothing is cached,
  the error is printed and the session is left failed, so the second event raises at its
  rate check and returns \<^verbatim>\<open>None\<close>. On a usable session over the same tables (another
  analyzer, or after a rollback) the second event is analysed a second time.
\<close>

theorem identical_events_not_memoized:
  "process_pair flat_env healthy (at_time 0) fresh_session abc_event =
     (PNone,
      \<lparr>db = empty_store\<lparr>rate_limits :=
               [\<lparr>ident = ''api_requests'', rl_count = 1, rl_expires = 1000000\<rparr>],
             printed := [StatementError], analyze_calls := 1\<rparr>,
       needs_rollback = True\<rparr>) \<and>
   process_pair flat_env healthy (at_time 5)
     (snd (process_pair flat_env healthy (at_time 0) fresh_session abc_event)) abc_event =
     (PNone,
      \<lparr>db = empty_store\<lparr>rate_limits :=
               [\<lparr>ident = ''api_requests'', rl_count = 1, rl_expires = 1000000\<rparr>],
             printed := [StatementError, PendingRollbackError], analyze_calls := 1\<rparr>,
       needs_rollback = True\<rparr>) \<and>
   process_pair flat_env healthy (at_time 5)
     ((snd (process_pair flat_env healthy (at_time 0) fresh_session abc_event))
        \<lparr>needs_rollback := False\<rparr>) abc_event =
     (PNone,
      \<lparr>db = empty_store\<lparr>rate_limits :=
               [\<lparr>ident = ''api_requests'', rl_count = 2, rl_expires = 1000000\<rparr>],
             printed := [StatementError, StatementError], analyze_calls := 2\<rparr>,
       needs_rollback = True\<rparr>)"
  by (simp add: run_defs)

text \<open>
  C6 fails on the code. Every exception is caught and printed, but the handler does not
  roll the session back. After an event whose cache store raised, a later event for
  another pair raises at its first store call: it is never analysed and nothing of it is
  stored. After an event whose analysis raised, the session is still usable, and the
  later event is analysed and then raises in its own cache store. Neither completes.
\<close>

theorem later_event_not_completed:
  "process_pair flat_env healthy (at_time 0) fresh_session abc_event =
     (PNone,
      \<lparr>db = empty_store\<lparr>rate_limits :=
               [\<lparr>ident = ''api_requests'', rl_count = 1, rl_expires = 1000000\<rparr>],
             printed := [StatementError], analyze_calls := 1\<rparr>,
       needs_rollback = True\<rparr>) \<and>
   process_pair flat_env healthy (at_time 5)
     (snd (process_pair flat_env healthy (at_time 0) fresh_session abc_event)) def_event =
     (PNone,
      \<lparr>db = empty_store\<lparr>rate_limits :=
               [\<lparr>ident = ''api_requests'', rl_count = 1, rl_expires = 1000000\<rparr>],
             printed := [StatementError, PendingRollbackError], analyze_calls := 1\<rparr>,
       needs_rollback = True\<rparr>) \<and>
   process_pair broken_env healthy (at_time 0) fresh_session abc_event =
     (PNone,
      \<lparr>db = empty_store\<lparr>rate_limits :=
               [\<lparr>ident = ''api_requests'', rl_count = 1, rl_expires = 1000000\<rparr>],
             printed := [External ''features''], analyze_calls := 1\<rparr>,
       needs_rollback = False\<rparr>) \<and>
   process_pair flat_env healthy (at_time 5)
     (snd (process_pair broken_env healthy (at_time 0) fresh_session abc_event)) def_event =
     (PNone,
      \<lparr>db = empty_store\<lparr>rate_limits :=
               [\<lparr>ident = ''api_requests'', rl_count = 2, rl_expires = 1000000\<rparr>],
             printed := [External ''features'', StatementError], analyze_calls := 2\<rparr>,
       needs_rollback = True\<rparr>)"
  by (simp add: run_defs)


text \<open>
  C10, as the code has it by design. The analysis record is the event's fields with
  \<^verbatim>\<open>pump_prob\<close>, \<^verbatim>\<open>rug_prob\<close> and \<^verbatim>\<open>timestamp\<close> set, so its \<^verbatim>\<open>signal\<close> entry is the
  event's own, and is missing when the event has none. An event that the rate limiter
  drops, or that finds a truthy value in the cache, returns before the analysis and
  publishes nothing, whatever its \<^verbatim>\<open>signal\<close> field. (What follows the analysis of an
  admitted event that misses the cache is not part of this statement.)
\<close>

theorem analysis_record_and_gates:
  "(analyze_data ev now data = Inr analysis \<longrightarrow>
      (\<exists>features pump rug.
         extract_features ev data = Inr features \<and>
         pump_detect ev features = Inr pump \<and> rug_detect ev features = Inr rug \<and>
         map_of analysis =
           (map_of data)(''pump_prob'' \<mapsto> pump, ''rug_prob'' \<mapsto> rug,
                         ''timestamp'' \<mapsto> PDateTime now)) \<and>
      map_of analysis ''signal'' = map_of data ''signal'') \<and>
   (\<not> needs_rollback s \<and>
    check_rate_limit (f_rate fl) (db s) (t_rate ck) ''api_requests'' 10 1 = Inr (False, st1) \<longrightarrow>
      process_pair ev fl ck s data = (PNone, s\<lparr>db := st1\<rparr>) \<and>
      trading_signals st1 = trading_signals (db s)) \<and>
   (\<not> needs_rollback s \<and>
    check_rate_limit (f_rate fl) (db s) (t_rate ck) ''api_requests'' 10 1 = Inr (True, st2) \<and>
    map_of data ''address'' = Some a \<and>
    cache_get (f_lookup fl) st2 (t_lookup ck) (cache_key_of ev a) = Inr cached \<and>
    truthy cached \<longrightarrow>
      process_pair ev fl ck s data = (cached, s\<lparr>db := st2\<rparr>) \<and>
      trading_signals st2 = trading_signals (db s))"
proof (intro conjI impI)
  assume an: "analyze_data ev now data = Inr analysis"
  then show "\<exists>features pump rug.
         extract_features ev data = Inr features \<and>
         pump_detect ev features = Inr pump \<and> rug_detect ev features = Inr rug \<and>
         map_of analysis =
           (map_of data)(''pump_prob'' \<mapsto> pump, ''rug_prob'' \<mapsto> rug,
                         ''timestamp'' \<mapsto> PDateTime now)"
    by (rule analyze_data_fields)
  from an show "map_of analysis ''signal'' = map_of data ''signal''"
    by (rule analyze_data_signal)
next
  assume a: "\<not> needs_rollback s \<and>
    check_rate_limit (f_rate fl) (db s) (t_rate ck) ''api_requests'' 10 1 = Inr (False, st1)"
  then show "process_pair ev fl ck s data = (PNone, s\<lparr>db := st1\<rparr>)"
    by (simp add: process_pair_def process_pair_try_def)
  from a show "trading_signals st1 = trading_signals (db s)"
    using check_rate_limit_frame by blast
next
  assume a: "\<not> needs_rollback s \<and>
    check_rate_limit (f_rate fl) (db s) (t_rate ck) ''api_requests'' 10 1 = Inr (True, st2) \<and>
    map_of data ''address'' = Some a \<and>
    cache_get (f_lookup fl) st2 (t_lookup ck) (cache_key_of ev a) = Inr cached \<and>
    truthy cached"
  then show "process_pair ev fl ck s data = (cached, s\<lparr>db := st2\<rparr>)"
    by (simp add: process_pair_def process_pair_try_def)
  from a show "trading_signals st2 = trading_signals (db s)"
    using check_rate_limit_frame by blast
qed

text \<open>
  C10 as stated fails for an event that the rate limiter drops: its \<^verbatim>\<open>signal\<close> field is
  truthy and nothing is published.
\<close>

theorem dropped_event_not_published_counterexample:
  "map_of abc_event ''signal'' = Some (PBool True) \<and> truthy (PBool True) \<and>
   process_pair flat_env healthy (at_time 0) requests_full abc_event = (PNone, requests_full) \<and>
   trading_signals (db requests_full) = []"
  by (simp add: run_defs)

theorem analysis_record_and_gates_witness:
  "analyze_data flat_env 0 abc_event =
     Inr [(''address'', PStr ''0xabc''), (''signal'', PBool True),
          (''pump_prob'', PFloat 0), (''rug_prob'', PFloat 0),
          (''timestamp'', PDateTime 0)] \<and>
   map_of [(''address'', PStr ''0xabc''), (''signal'', PBool True),
           (''pump_prob'', PFloat 0), (''rug_prob'', PFloat 0),
           (''timestamp'', PDateTime 0)] ''signal'' = map_of abc_event ''signal'' \<and>
   \<not> needs_rollback requests_full \<and>
   check_rate_limit (f_rate healthy) (db requests_full) (t_rate (at_time 0))
     ''api_requests'' 10 1 = Inr (False, db requests_full) \<and>
   process_pair flat_env healthy (at_time 0) requests_full abc_event = (PNone, requests_full) \<and>
   \<not> needs_rollback price_session \<and>
   map_of abc_event ''address'' = Some (PStr ''0xabc'') \<and>
   truthy (PDict [(''price'', PInt 1)]) \<and>
   fst (process_pair flat_env healthy (at_time 0) price_session abc_event) =
     PDict [(''price'', PInt 1)] \<and>
   trading_signals (db (snd (process_pair flat_env healthy (at_time 0) price_session
     abc_event))) = []"
proof -
  let ?rec = "[(''address'', PStr ''0xabc''), (''signal'', PBool True),
               (''pump_prob'', PFloat 0), (''rug_prob'', PFloat 0),
               (''timestamp'', PDateTime 0)]"
  let ?st2 = "price_cached\<lparr>rate_limits :=
       [\<lparr>ident = ''api_requests'', rl_count = 1, rl_expires = 1000000\<rparr>]\<rparr>"
  have an: "analyze_data flat_env 0 abc_event = Inr ?rec"
    by (simp add: run_defs)
  have ok1: "\<not> needs_rollback requests_full" and ok2: "\<not> needs_rollback price_session"
    by (simp_all add: requests_full_def price_session_def)
  have drop: "check_rate_limit (f_rate healthy) (db requests_full) (t_rate (at_time 0))
     ''api_requests'' 10 1 = Inr (False, db requests_full)"
    by (simp add: run_defs)
  have adm: "check_rate_limit (f_rate healthy) (db price_session) (t_rate (at_time 0))
     ''api_requests'' 10 1 = Inr (True, ?st2)"
    by (simp add: run_defs)
  have addr: "map_of abc_event ''address'' = Some (PStr ''0xabc'')"
    by (simp add: abc_event_def)
  have hit: "cache_get (f_lookup healthy) ?st2 (t_lookup (at_time 0))
     (cache_key_of flat_env (PStr ''0xabc'')) = Inr (PDict [(''price'', PInt 1)])"
    by (simp add: run_defs)
  have tr: "truthy (PDict [(''price'', PInt 1)])" by simp
  from analysis_record_and_gates [of flat_env 0 abc_event ?rec requests_full healthy
      "at_time 0" "db requests_full"] an ok1 drop
  have p1: "map_of ?rec ''signal'' = map_of abc_event ''signal'' \<and>
            process_pair flat_env healthy (at_time 0) requests_full abc_event =
              (PNone, requests_full)"
    by simp
  from analysis_record_and_gates [of flat_env 0 abc_event ?rec price_session healthy
      "at_time 0" _ ?st2 "PStr ''0xabc''" "PDict [(''price'', PInt 1)]"] ok2 adm addr hit tr
  have p2: "process_pair flat_env healthy (at_time 0) price_session abc_event =
              (PDict [(''price'', PInt 1)], price_session\<lparr>db := ?st2\<rparr>) \<and>
            trading_signals ?st2 = trading_signals (db price_session)"
    by simp
  from p2 have p3: "trading_signals (db (snd (process_pair flat_env healthy (at_time 0)
      price_session abc_event))) = []"
    by (simp add: price_session_def price_cached_def empty_store_def)
  from an p1 ok1 drop ok2 addr tr p2 p3 show ?thesis by simp
qed

section \<open>One caller after another\<close>

text \<open>
  Within one window, calls made in sequence are admitted until the count reaches the
  limit and refused from then on: of fifteen calls under a limit of ten, the first ten
  are admitted. This is the sequential behaviour only; callers that interleave between
  the query and the commit of \<^verbatim>\<open>check_rate_limit\<close> are not part of this model.
\<close>

lemma allow_seq_in_window:
  assumes "window_of st i = Some r"
    and "\<forall>t\<in>set ts. t \<le> rl_expires r"
    and "rl_count r \<le> l"
  shows "allow_seq st ts i l w =
           replicate (min (length ts) (nat (l - rl_count r))) (Inr True) @
           replicate (length ts - nat (l - rl_count r)) (Inr False)"
  using assms
proof (induction ts arbitrary: st r)
  case Nil
  then show ?case by simp
next
  case (Cons t ts)
  from Cons.prems have t: "t \<le> rl_expires r" by simp
  show ?case
  proof (cases "rl_count r < l")
    case False
    with Cons.prems have full: "rl_count r = l" by simp
    with Cons.prems(1) t have step: "check_rate_limit None st t i l w = Inr (False, st)"
      by (simp add: check_rate_limit_def window_of_def)
    from Cons.IH [OF Cons.prems(1)] Cons.prems full
    have "allow_seq st ts i l w = replicate (length ts) (Inr False)" by simp
    with step full show ?thesis by simp
  next
    case True
    let ?st' = "st\<lparr>rate_limits :=
                 map (\<lambda>x. if ident x = i then x\<lparr>rl_count := rl_count r + 1\<rparr> else x)
                   (rate_limits st)\<rparr>"
    from Cons.prems(1) t True
    have step: "check_rate_limit None st t i l w = Inr (True, ?st')"
      by (simp add: check_rate_limit_def window_of_def)
    from Cons.prems(1) have w': "window_of ?st' i = Some (r\<lparr>rl_count := rl_count r + 1\<rparr>)"
      by (simp add: window_of_def first_filter_bump)
    from Cons.IH [OF w'] Cons.prems True
    have ih: "allow_seq ?st' ts i l w =
           replicate (min (length ts) (nat (l - (rl_count r + 1)))) (Inr True) @
           replicate (length ts - nat (l - (rl_count r + 1))) (Inr False)"
      by simp
    from True have n: "nat (l - rl_count r) = Suc (nat (l - (rl_count r + 1)))"
      by simp
    have "allow_seq st (t # ts) i l w = Inr True # allow_seq ?st' ts i l w"
      by (simp add: step)
    then show ?thesis
      by (simp add: ih n)
  qed
qed

lemma allow_fifteen:
  "allow_seq empty_store (replicate 15 0) ''api'' 10 1 =
     replicate 10 (Inr True) @ replicate 5 (Inr False)"
proof -
  let ?st1 = "empty_store\<lparr>rate_limits :=
       [\<lparr>ident = ''api'', rl_count = 1, rl_expires = timedelta_seconds 1\<rparr>]\<rparr>"
  have first: "check_rate_limit None empty_store 0 ''api'' 10 1 = Inr (True, ?st1)"
    by (simp add: check_rate_limit_def add_rate_limit_def empty_store_def)
  have w: "window_of ?st1 ''api'' =
             Some \<lparr>ident = ''api'', rl_count = 1, rl_expires = timedelta_seconds 1\<rparr>"
    by (simp add: window_of_def)
  have "allow_seq ?st1 (replicate 14 0) ''api'' 10 1 =
          replicate 9 (Inr True) @ replicate 5 (Inr False)"
    using allow_seq_in_window [OF w, of "replicate 14 0" 10 1]
    by (simp add: timedelta_seconds_def)
  moreover have "replicate 15 (0::int) = 0 # replicate 14 0"
    by (simp add: numeral_eq_Suc)
  moreover have "replicate 10 (Inr True :: error + bool) = Inr True # replicate 9 (Inr True)"
    by (simp add: numeral_eq_Suc)
  ultimately show ?thesis using first by simp
qed

section \<open>The primary keys are kept\<close>

text \<open>
  Every operation that returns leaves the keys of its table unique, and the serial
  counter ahead of every stored signal id.
\<close>

lemma cache_set_keeps_pk:
  "pk_cache st \<Longrightarrow> cache_set f st now k v ttl = Inr st' \<Longrightarrow> pk_cache st'"
  by (auto simp: pk_cache_def cache_set_def Let_def merge_row_distinct
           split: option.splits if_splits)

lemma bump_idents:
  "map ident (map (\<lambda>r. if ident r = i then r\<lparr>rl_count := c\<rparr> else r) tbl) = map ident tbl"
  by (induction tbl) auto

lemma check_rate_limit_keeps_pk:
  assumes "pk_rate st" and "check_rate_limit f st now i l w = Inr (b, st')"
  shows "pk_rate st'"
  using assms
  by (auto simp: pk_rate_def check_rate_limit_def add_rate_limit_def Let_def bump_idents
           simp del: map_map split: option.splits if_splits)

lemma publish_signal_keeps_pk:
  assumes "pk_signals st"
  shows "pk_signals (snd (publish_signal f st t chan msg))"
  using assms
  by (fastforce simp: pk_signals_def publish_signal_def str_has_quote_def Let_def list_all_iff
           split: option.splits publish_fault.splits)

lemma consume_signals_keeps_pk:
  assumes "pk_signals st"
  shows "pk_signals (snd (consume_signals scan st chan))"
  using assms
  by (auto simp: pk_signals_def consume_signals_def Let_def list_all_iff distinct_map_filter)

end
